theory Spec2Isabelle
  imports Main "HOL-Library.AList"
begin

section \<open>JavaScript strings and the built-ins the library calls\<close>

text \<open>
  The development embeds the ads.txt library: the parser \<^verbatim>\<open>parseAdsTxt\<close> and the
  generator \<^verbatim>\<open>generateAdsTxt\<close> of its current revision, the one with
  \<^verbatim>\<open>NEW_LINE\<close> and \<^verbatim>\<open>isDomainName\<close>. The earlier revision of the parser that is
  also in the repository (it splits the text on a \<^verbatim>\<open>newLine\<close> option and has no
  generator) is not the subject.

  A JavaScript string is a sequence of UTF-16 code units; a code unit is a natural number
  here, and every string of the program is a list of numbers below 65536. A statement about
  all lists covers all strings.
\<close>

type_synonym jsstring = "nat list"

definition js :: "string \<Rightarrow> jsstring" where
  "js s = map of_char s"

text \<open>
  The line terminators of ECMAScript (LF, CR, LS, PS): the characters the regular
  expression atom \<^verbatim>\<open>.\<close> does not match.
\<close>

definition isLineTerminator :: "nat \<Rightarrow> bool" where
  "isLineTerminator c = (c = 0x0A \<or> c = 0x0D \<or> c = 0x2028 \<or> c = 0x2029)"

text \<open>
  The class \<^verbatim>\<open>\s\<close> of regular expressions, which is also what \<^verbatim>\<open>trim\<close> strips:
  WhiteSpace (TAB, VT, FF, SP, NBSP, ZWNBSP and the category Zs) and the line terminators.
\<close>

definition isWhiteSpace :: "nat \<Rightarrow> bool" where
  "isWhiteSpace c =
     (c = 0x09 \<or> c = 0x0A \<or> c = 0x0B \<or> c = 0x0C \<or> c = 0x0D \<or> c = 0x20 \<or> c = 0xA0
      \<or> c = 0x1680 \<or> (0x2000 \<le> c \<and> c \<le> 0x200A) \<or> c = 0x2028 \<or> c = 0x2029
      \<or> c = 0x202F \<or> c = 0x205F \<or> c = 0x3000 \<or> c = 0xFEFF)"

definition trim :: "jsstring \<Rightarrow> jsstring" where
  "trim s = rev (dropWhile isWhiteSpace (rev (dropWhile isWhiteSpace s)))"

text \<open>
  \<^verbatim>\<open>s.split(sep)\<close> for a separator of one code unit (the program splits on
  \<^verbatim>\<open>","\<close>, \<^verbatim>\<open>"#"\<close> and \<^verbatim>\<open>"\n"\<close>). The empty string splits into one empty piece.
  The result is never empty, so the empty case of the inner match is never taken.
\<close>

fun split_str :: "nat \<Rightarrow> jsstring \<Rightarrow> jsstring list" where
  "split_str sep [] = [[]]"
| "split_str sep (c # s) =
     (if c = sep then [] # split_str sep s
      else (case split_str sep s of
              [] \<Rightarrow> [[c]]
            | p # ps \<Rightarrow> (c # p) # ps))"

text \<open>\<^verbatim>\<open>parts.join(sep)\<close>.\<close>

fun join :: "jsstring \<Rightarrow> jsstring list \<Rightarrow> jsstring" where
  "join sep [] = []"
| "join sep [x] = x"
| "join sep (x # y # ys) = x @ sep @ join sep (y # ys)"

text \<open>
  \<^verbatim>\<open>text.split(NEW_LINE)\<close> with \<^verbatim>\<open>NEW_LINE = /\r\n|\n|\r/\<close>: at a CR the first
  alternative is tried first, so CR LF is one separator.
\<close>

fun split_NEW_LINE :: "jsstring \<Rightarrow> jsstring list" where
  "split_NEW_LINE [] = [[]]"
| "split_NEW_LINE (c # s) =
     (if c = 0x0D then
        (case s of
           [] \<Rightarrow> [[], []]
         | d # t \<Rightarrow> if d = 0x0A then [] # split_NEW_LINE t else [] # split_NEW_LINE s)
      else if c = 0x0A then [] # split_NEW_LINE s
      else (case split_NEW_LINE s of
              [] \<Rightarrow> [[c]]
            | p # ps \<Rightarrow> (c # p) # ps))"

text \<open>
  \<^verbatim>\<open>toUpperCase\<close>. The program only asks whether the result is \<^verbatim>\<open>DIRECT\<close> or
  \<^verbatim>\<open>RESELLER\<close>. The code units whose upper case is an ASCII capital are the ASCII small
  letters, the dotless i (U+0131) and the long s (U+017F); they are mapped as Unicode maps
  them. Every other code unit is left as it is: the Unicode mapping changes some of them,
  but into no text that occurs in one of the two words, so the membership test is exact.
\<close>

definition upper_unit :: "nat \<Rightarrow> nat" where
  "upper_unit c =
     (if 0x61 \<le> c \<and> c \<le> 0x7A then c - 0x20
      else if c = 0x131 then 0x49
      else if c = 0x17F then 0x53
      else c)"

definition toUpperCase :: "jsstring \<Rightarrow> jsstring" where
  "toUpperCase s = map upper_unit s"

subsection \<open>Errors\<close>

text \<open>
  Every exception the program can raise: the two raised by built-ins (\<^verbatim>\<open>URIError\<close> of
  \<^verbatim>\<open>decodeURIComponent\<close>, \<^verbatim>\<open>TypeError\<close> of a method call on \<^verbatim>\<open>undefined\<close>) and
  the program's own \<^verbatim>\<open>Error\<close>s, told apart by their message, with the value the
  message quotes.
\<close>

datatype error =
    URIError
  | TypeError
  | InvalidOption jsstring
  | InvalidLine jsstring
  | InvalidDomain "jsstring option"
  | InvalidPublisherID
  | InvalidAccountType "jsstring option"
  | InvalidVariableValue

fun map_err :: "('a \<Rightarrow> error + 'b) \<Rightarrow> 'a list \<Rightarrow> error + 'b list" where
  "map_err f [] = Inr []"
| "map_err f (x # xs) =
     (case f x of
        Inl e \<Rightarrow> Inl e
      | Inr y \<Rightarrow> (case map_err f xs of Inl e \<Rightarrow> Inl e | Inr ys \<Rightarrow> Inr (y # ys)))"

definition prepend :: "jsstring \<Rightarrow> error + jsstring \<Rightarrow> error + jsstring" where
  "prepend p r = (case r of Inl e \<Rightarrow> Inl e | Inr t \<Rightarrow> Inr (p @ t))"

subsection \<open>decodeURIComponent\<close>

text \<open>
  The abstract operation Decode of ECMAScript with an empty reserved set. An escape is
  \<^verbatim>\<open>%\<close> and two hexadecimal digits; an octet below 0x80 is the code unit itself; an
  octet with n leading one bits (n from 2 to 4) starts a UTF-8 sequence of n escaped
  octets, which must encode a code point (no overlong form, no surrogate, at most
  U+10FFFF); anything else raises \<^verbatim>\<open>URIError\<close>.
\<close>

definition hexDigit :: "nat \<Rightarrow> nat option" where
  "hexDigit c =
     (if 0x30 \<le> c \<and> c \<le> 0x39 then Some (c - 0x30)
      else if 0x41 \<le> c \<and> c \<le> 0x46 then Some (c - 0x37)
      else if 0x61 \<le> c \<and> c \<le> 0x66 then Some (c - 0x57)
      else None)"

definition leadingOnes :: "nat \<Rightarrow> nat" where
  "leadingOnes b =
     (if b < 0x80 then 0 else if b < 0xC0 then 1 else if b < 0xE0 then 2
      else if b < 0xF0 then 3 else if b < 0xF8 then 4 else 5)"

fun octets :: "nat \<Rightarrow> jsstring \<Rightarrow> nat list option" where
  "octets 0 s = Some []"
| "octets (Suc n) (p # h1 # h2 # s) =
     (if p = 0x25 then
        (case (hexDigit h1, hexDigit h2) of
           (Some a, Some b) \<Rightarrow> map_option (Cons (16 * a + b)) (octets n s)
         | _ \<Rightarrow> None)
      else None)"
| "octets (Suc n) s = None"

definition continuation :: "nat \<Rightarrow> bool" where
  "continuation b = (0x80 \<le> b \<and> b < 0xC0)"

definition codePoint :: "nat list \<Rightarrow> nat option" where
  "codePoint bs =
     (case bs of
        [b0, b1] \<Rightarrow>
          (let v = (b0 - 0xC0) * 64 + (b1 - 0x80)
           in if continuation b1 \<and> 0x80 \<le> v then Some v else None)
      | [b0, b1, b2] \<Rightarrow>
          (let v = (b0 - 0xE0) * 4096 + (b1 - 0x80) * 64 + (b2 - 0x80)
           in if continuation b1 \<and> continuation b2 \<and> 0x800 \<le> v
                 \<and> \<not> (0xD800 \<le> v \<and> v \<le> 0xDFFF)
              then Some v else None)
      | [b0, b1, b2, b3] \<Rightarrow>
          (let v = (b0 - 0xF0) * 262144 + (b1 - 0x80) * 4096 + (b2 - 0x80) * 64 + (b3 - 0x80)
           in if continuation b1 \<and> continuation b2 \<and> continuation b3
                 \<and> 0x10000 \<le> v \<and> v \<le> 0x10FFFF
              then Some v else None)
      | _ \<Rightarrow> None)"

definition UTF16EncodeCodePoint :: "nat \<Rightarrow> jsstring" where
  "UTF16EncodeCodePoint v =
     (if v < 0x10000 then [v]
      else [0xD800 + (v - 0x10000) div 1024, 0xDC00 + (v - 0x10000) mod 1024])"

fun decodeURIComponent :: "jsstring \<Rightarrow> error + jsstring" where
  "decodeURIComponent [] = Inr []"
| "decodeURIComponent (c # s) =
     (if c \<noteq> 0x25 then prepend [c] (decodeURIComponent s)
      else
        (case s of
           h1 # h2 # rest \<Rightarrow>
             (case (hexDigit h1, hexDigit h2) of
                (Some a, Some b) \<Rightarrow>
                  (let B = 16 * a + b; n = leadingOnes B
                   in if n = 0 then prepend [B] (decodeURIComponent rest)
                      else if n = 1 \<or> 4 < n then Inl URIError
                      else
                        (case octets (n - 1) rest of
                           None \<Rightarrow> Inl URIError
                         | Some bs \<Rightarrow>
                             (case codePoint (B # bs) of
                                None \<Rightarrow> Inl URIError
                              | Some v \<Rightarrow>
                                  prepend (UTF16EncodeCodePoint v)
                                    (decodeURIComponent (drop (3 * (n - 1)) rest)))))
              | _ \<Rightarrow> Inl URIError)
         | _ \<Rightarrow> Inl URIError))"

section \<open>The data model\<close>

text \<open>
  \<^verbatim>\<open>AdsTxtManifestField\<close>: every property is a string or absent (\<^verbatim>\<open>undefined\<close>).
  \<^verbatim>\<open>AdsTxtManifest\<close>: the variables are an object, here the list of its own properties
  in the order \<^verbatim>\<open>Object.keys\<close> gives them; a value is a string, an array of strings or
  something else. Both properties of a manifest given to the generator may be absent.
  The property \<^verbatim>\<open>fields\<close> is named \<open>dataFields\<close>, as the parser's variable is.
\<close>

record AdsTxtManifestField =
  domain :: "jsstring option"
  publisherAccountID :: "jsstring option"
  accountType :: "jsstring option"
  certificateAuthorityID :: "jsstring option"
  comment :: "jsstring option"

datatype variable_value = Str jsstring | Arr "jsstring list" | Other

type_synonym variable_object = "(jsstring \<times> variable_value) list"

record AdsTxtManifest =
  variables :: "variable_object option"
  dataFields :: "AdsTxtManifestField list option"

definition AccountType :: "jsstring list" where
  "AccountType = [js ''DIRECT'', js ''RESELLER'']"

text \<open>
  \<^verbatim>\<open>isDomainName\<close> is the predicate of the package is-domain-name, which is not part of
  the repository: every operation that calls it takes it as a parameter, applied to the
  value it is given (\<open>None\<close> for \<^verbatim>\<open>undefined\<close>).
\<close>

type_synonym domain_predicate = "jsstring option \<Rightarrow> bool"

section \<open>Classifying and parsing lines\<close>

text \<open>\<^verbatim>\<open>const [a, b, c, d] = array\<close>: a missing element is \<^verbatim>\<open>undefined\<close>.\<close>

definition item :: "'a list \<Rightarrow> nat \<Rightarrow> 'a option" where
  "item xs i = (if i < length xs then Some (xs ! i) else None)"

definition stripComment :: "jsstring \<Rightarrow> jsstring \<times> jsstring" where
  "stripComment line =
     (case split_str 0x23 line of
        [] \<Rightarrow> ([], [])
      | main # commentParts \<Rightarrow> (main, trim (join [0x23] commentParts)))"

definition isValidAccountType :: "jsstring option \<Rightarrow> error + bool" where
  "isValidAccountType type =
     (case type of
        None \<Rightarrow> Inl TypeError
      | Some t \<Rightarrow> Inr (toUpperCase t \<in> set AccountType))"

definition createDataField :: "jsstring \<Rightarrow> error + AdsTxtManifestField" where
  "createDataField line =
     (case stripComment line of
        (commentStrippedLine, cmt) \<Rightarrow>
          (case map_err decodeURIComponent (map trim (split_str 0x2C commentStrippedLine)) of
             Inl e \<Rightarrow> Inl e
           | Inr items \<Rightarrow>
               Inr \<lparr> domain = item items 0,
                     publisherAccountID = item items 1,
                     accountType = item items 2,
                     certificateAuthorityID = item items 3,
                     comment = (if cmt \<noteq> [] then Some cmt else None) \<rparr>))"

text \<open>\<^verbatim>\<open>/^\s*#/.test(line)\<close>.\<close>

definition isComment :: "jsstring \<Rightarrow> bool" where
  "isComment line =
     (case dropWhile isWhiteSpace line of [] \<Rightarrow> False | c # _ \<Rightarrow> c = 0x23)"

text \<open>\<^verbatim>\<open>EMPTY_LINE = /^\s*$/\<close>.\<close>

definition EMPTY_LINE :: "jsstring \<Rightarrow> bool" where
  "EMPTY_LINE line = list_all isWhiteSpace line"

text \<open>
  The exceptions raised inside the \<^verbatim>\<open>try\<close> block are caught and the line is no data
  field; \<^verbatim>\<open>isDomainName\<close> is called before \<^verbatim>\<open>isValidAccountType\<close>.
\<close>

definition isDataField :: "domain_predicate \<Rightarrow> jsstring \<Rightarrow> bool" where
  "isDataField isDomainName line =
     (case stripComment line of
        (commentStrippedLine, _) \<Rightarrow>
          (let items = map trim (split_str 0x2C commentStrippedLine);
               d = isDomainName (item items 0)
           in case isValidAccountType (item items 2) of
                Inl e \<Rightarrow> False
              | Inr a \<Rightarrow> d \<and> a))"

text \<open>
  \<^verbatim>\<open>line.match(VARIABLE_DEFINITION)\<close> with \<^verbatim>\<open>/^([a-zA-Z]+)=(.+)$/\<close>: the two groups
  of the match, if there is one. The name is the longest run of letters at the start,
  since the next character has to be \<^verbatim>\<open>=\<close>; the value is the rest of the line, not
  empty and free of line terminators.
\<close>

definition isLetter :: "nat \<Rightarrow> bool" where
  "isLetter c = ((0x41 \<le> c \<and> c \<le> 0x5A) \<or> (0x61 \<le> c \<and> c \<le> 0x7A))"

definition VARIABLE_DEFINITION :: "jsstring \<Rightarrow> (jsstring \<times> jsstring) option" where
  "VARIABLE_DEFINITION line =
     (case dropWhile isLetter line of
        [] \<Rightarrow> None
      | c # v \<Rightarrow>
          if takeWhile isLetter line \<noteq> [] \<and> c = 0x3D \<and> v \<noteq> []
             \<and> list_all (\<lambda>u. \<not> isLineTerminator u) v
          then Some (takeWhile isLetter line, v)
          else None)"

definition isVariableAssignment :: "jsstring \<Rightarrow> bool" where
  "isVariableAssignment line = (VARIABLE_DEFINITION line \<noteq> None)"

text \<open>
  The three branches that store a variable. \<^verbatim>\<open>variables[name]\<close> of a name that is no
  own property is \<^verbatim>\<open>undefined\<close> or a function of \<^verbatim>\<open>Object.prototype\<close>: neither a
  string nor an array. Assigning to an own property keeps its place among the keys,
  assigning to a new name adds it last.
\<close>

definition storeVariable :: "variable_object \<Rightarrow> jsstring \<Rightarrow> jsstring \<Rightarrow> variable_object" where
  "storeVariable vars variableName v =
     (case map_of vars variableName of
        Some (Str old) \<Rightarrow> AList.update variableName (Arr [old, v]) vars
      | Some (Arr vs) \<Rightarrow> AList.update variableName (Arr (vs @ [v])) vars
      | _ \<Rightarrow> AList.update variableName (Str v) vars)"

text \<open>The body of the \<^verbatim>\<open>forEach\<close> of \<^verbatim>\<open>parseAdsTxt\<close>, on the two accumulators.\<close>

definition parseLine ::
  "domain_predicate \<Rightarrow> jsstring \<Rightarrow> variable_object \<times> AdsTxtManifestField list \<Rightarrow> jsstring
   \<Rightarrow> error + variable_object \<times> AdsTxtManifestField list" where
  "parseLine isDomainName invalidLineAction st line =
     (if isComment line \<or> EMPTY_LINE line then Inr st
      else if isVariableAssignment line then
        (case VARIABLE_DEFINITION line of
           None \<Rightarrow> Inl TypeError
         | Some (variableName, v) \<Rightarrow>
             (case decodeURIComponent v of
                Inl e \<Rightarrow> Inl e
              | Inr decoded \<Rightarrow> Inr (storeVariable (fst st) variableName decoded, snd st)))
      else if isDataField isDomainName line then
        (case createDataField line of
           Inl e \<Rightarrow> Inl e
         | Inr field \<Rightarrow> Inr (fst st, snd st @ [field]))
      else if invalidLineAction = js ''throw'' then Inl (InvalidLine line)
      else Inr st)"

fun forEach :: "('s \<Rightarrow> 'a \<Rightarrow> error + 's) \<Rightarrow> 's \<Rightarrow> 'a list \<Rightarrow> error + 's" where
  "forEach f st [] = Inr st"
| "forEach f st (x # xs) =
     (case f st x of Inl e \<Rightarrow> Inl e | Inr st' \<Rightarrow> forEach f st' xs)"

text \<open>
  \<^verbatim>\<open>parseAdsTxt(text, parseOptions)\<close>; the option is \<open>None\<close> when the caller gives no
  \<^verbatim>\<open>invalidLineAction\<close>, and the default \<^verbatim>\<open>"filter"\<close> applies.
\<close>

definition parseAdsTxt ::
  "domain_predicate \<Rightarrow> jsstring \<Rightarrow> jsstring option \<Rightarrow> error + AdsTxtManifest" where
  "parseAdsTxt isDomainName text parseOptions =
     (let invalidLineAction = (case parseOptions of None \<Rightarrow> js ''filter'' | Some a \<Rightarrow> a)
      in if invalidLineAction \<noteq> js ''filter'' \<and> invalidLineAction \<noteq> js ''throw''
         then Inl (InvalidOption invalidLineAction)
         else
           (case forEach (parseLine isDomainName invalidLineAction) ([], []) (split_NEW_LINE text) of
              Inl e \<Rightarrow> Inl e
            | Inr st \<Rightarrow> Inr \<lparr> variables = Some (fst st), dataFields = Some (snd st) \<rparr>))"

section \<open>Generating\<close>

text \<open>A value inside a template literal: \<^verbatim>\<open>undefined\<close> prints as its name.\<close>

definition template :: "jsstring option \<Rightarrow> jsstring" where
  "template v = (case v of None \<Rightarrow> js ''undefined'' | Some s \<Rightarrow> s)"

text \<open>\<^verbatim>\<open>x && x.length > 0\<close> on a string or \<^verbatim>\<open>undefined\<close>.\<close>

definition nonEmpty :: "jsstring option \<Rightarrow> bool" where
  "nonEmpty v = (case v of None \<Rightarrow> False | Some s \<Rightarrow> s \<noteq> [])"

definition generateLineForField :: "domain_predicate \<Rightarrow> AdsTxtManifestField \<Rightarrow> error + jsstring" where
  "generateLineForField isDomainName field =
     (if \<not> isDomainName (domain field) then Inl (InvalidDomain (domain field))
      else if \<not> nonEmpty (publisherAccountID field) then Inl InvalidPublisherID
      else
        (case isValidAccountType (accountType field) of
           Inl e \<Rightarrow> Inl e
         | Inr valid \<Rightarrow>
             if \<not> valid then Inl (InvalidAccountType (accountType field))
             else
               Inr (template (domain field) @ js '', '' @ template (publisherAccountID field)
                    @ js '', '' @ template (accountType field)
                    @ (if nonEmpty (certificateAuthorityID field)
                       then js '', '' @ template (certificateAuthorityID field) else [])
                    @ (if nonEmpty (comment field)
                       then js '' # '' @ template (comment field) else []))))"

definition generateLineForVariable :: "jsstring \<Rightarrow> variable_value \<Rightarrow> error + jsstring" where
  "generateLineForVariable key v =
     (case v of
        Arr vs \<Rightarrow> Inr (join [0x0A] (map (\<lambda>single. key @ [0x3D] @ single) vs))
      | Str s \<Rightarrow> Inr (key @ [0x3D] @ s)
      | Other \<Rightarrow> Inl InvalidVariableValue)"

text \<open>The header or footer as comment lines; nothing when absent or empty.\<close>

definition commentLines :: "jsstring option \<Rightarrow> jsstring list" where
  "commentLines block =
     (if nonEmpty block then map (\<lambda>line. js ''# '' @ line) (split_str 0x0A (template block))
      else [])"

text \<open>
  \<^verbatim>\<open>manifest.variables[key]\<close> for a key of \<^verbatim>\<open>Object.keys\<close> is the value of that own
  property.
\<close>

definition property :: "variable_object \<Rightarrow> jsstring \<Rightarrow> variable_value" where
  "property vars key = (case map_of vars key of None \<Rightarrow> Other | Some v \<Rightarrow> v)"

definition generateAdsTxt ::
  "domain_predicate \<Rightarrow> AdsTxtManifest \<Rightarrow> jsstring option \<Rightarrow> jsstring option \<Rightarrow> error + jsstring" where
  "generateAdsTxt isDomainName manifest header footer =
     (let fs = (case dataFields manifest of None \<Rightarrow> [] | Some l \<Rightarrow> l);
          vars = (case variables manifest of None \<Rightarrow> [] | Some l \<Rightarrow> l)
      in case map_err (generateLineForField isDomainName) fs of
           Inl e \<Rightarrow> Inl e
         | Inr fieldLines \<Rightarrow>
             (case map_err (\<lambda>key. generateLineForVariable key (property vars key)) (map fst vars) of
                Inl e \<Rightarrow> Inl e
              | Inr variableLines \<Rightarrow>
                  Inr (join [0x0A]
                         (commentLines header @ fieldLines @ variableLines @ commentLines footer))))"

section \<open>Notions used in the statements\<close>

text \<open>
  The values assigned to a name in a text: the second group of every line that matches
  \<^verbatim>\<open>VARIABLE_DEFINITION\<close> with that name as its first group, in the order of the lines.
\<close>

definition assignedValues :: "jsstring \<Rightarrow> jsstring list \<Rightarrow> jsstring list" where
  "assignedValues name lines =
     map snd (filter (\<lambda>p. fst p = name) (List.map_filter VARIABLE_DEFINITION lines))"


text \<open>
  A value that a record line carries unchanged from the generator to the parser: it is not
  empty, has no white space at either end, and has no comma, number sign, percent sign, CR
  or LF.
\<close>

definition plainValue :: "jsstring \<Rightarrow> bool" where
  "plainValue s =
     (s \<noteq> [] \<and> trim s = s
      \<and> 0x2C \<notin> set s \<and> 0x23 \<notin> set s \<and> 0x25 \<notin> set s \<and> 0x0A \<notin> set s \<and> 0x0D \<notin> set s)"

text \<open>
  A well-formed record without comment whose values are plain: the domain is accepted and
  has no equals sign, the account type is DIRECT or RESELLER, the certificate authority ID
  is absent or plain.
\<close>

definition plainField :: "domain_predicate \<Rightarrow> AdsTxtManifestField \<Rightarrow> bool" where
  "plainField isDomainName r =
     (case (domain r, publisherAccountID r, accountType r) of
        (Some d, Some p, Some t) \<Rightarrow>
          isDomainName (Some d) \<and> plainValue d \<and> 0x3D \<notin> set d \<and> plainValue p
          \<and> t \<in> set AccountType
          \<and> (case certificateAuthorityID r of None \<Rightarrow> True | Some c \<Rightarrow> plainValue c)
          \<and> comment r = None
      | _ \<Rightarrow> False)"

text \<open>
  A scalar variable that a variable line carries unchanged: the name is made of letters,
  the value is a string that is not empty and has no line terminator and no percent sign.
\<close>

definition plainVariable :: "jsstring \<times> variable_value \<Rightarrow> bool" where
  "plainVariable kv =
     (case kv of
        (k, Str v) \<Rightarrow>
          k \<noteq> [] \<and> list_all isLetter k \<and> v \<noteq> []
          \<and> list_all (\<lambda>u. \<not> isLineTerminator u) v \<and> 0x25 \<notin> set v
      | _ \<Rightarrow> False)"

section \<open>Concrete inputs\<close>

text \<open>
  An instance of the domain predicate for evaluating the operations on concrete inputs: it
  accepts the listed names and nothing else. It is only used with names that are domain
  names.
\<close>

definition listed :: "string list \<Rightarrow> domain_predicate" where
  "listed names v = (v \<in> set (map (\<lambda>n. Some (js n)) names))"


section \<open>Splitting and joining\<close>

lemma split_str_not_Nil [simp]: "split_str sep s \<noteq> []"
  by (induction s) (auto split: list.splits)

lemma split_str_no_sep: "sep \<notin> set s \<Longrightarrow> split_str sep s = [s]"
  by (induction s) auto

lemma split_str_append:
  "sep \<notin> set a \<Longrightarrow> split_str sep (a @ sep # b) = a # split_str sep b"
  by (induction a) auto

lemma split_NEW_LINE_not_Nil [simp]: "split_NEW_LINE s \<noteq> []"
  by (induction s rule: split_NEW_LINE.induct) (auto split: list.splits)

lemma split_NEW_LINE_no_sep:
  "10 \<notin> set a \<Longrightarrow> 13 \<notin> set a \<Longrightarrow> split_NEW_LINE a = [a]"
  by (induction a) auto

lemma split_NEW_LINE_LF:
  "10 \<notin> set a \<Longrightarrow> 13 \<notin> set a \<Longrightarrow> split_NEW_LINE (a @ 10 # b) = a # split_NEW_LINE b"
  by (induction a) auto





lemma split_NEW_LINE_join:
  "ls \<noteq> [] \<Longrightarrow> \<forall>l\<in>set ls. 10 \<notin> set l \<and> 13 \<notin> set l \<Longrightarrow> split_NEW_LINE (join [10] ls) = ls"
proof (induction ls)
  case Nil
  then show ?case by simp
next
  case (Cons x ls)
  show ?case
  proof (cases ls)
    case Nil
    with Cons show ?thesis by (simp add: split_NEW_LINE_no_sep)
  next
    case (Cons y ys)
    with Cons.prems Cons.IH show ?thesis by (simp add: split_NEW_LINE_LF)
  qed
qed

section \<open>Evaluating the operations\<close>

text \<open>
  The definitions to unfold when an operation is evaluated on a concrete text.
\<close>

lemmas char_defs = isWhiteSpace_def isLetter_def isLineTerminator_def upper_unit_def
  hexDigit_def leadingOnes_def continuation_def

lemmas string_defs = js_def trim_def toUpperCase_def prepend_def item_def

lemmas line_defs = stripComment_def isComment_def EMPTY_LINE_def VARIABLE_DEFINITION_def
  isValidAccountType_def AccountType_def createDataField_def

section \<open>The four cases of a line\<close>

lemma parseLine_skip:
  "isComment l \<or> EMPTY_LINE l \<Longrightarrow> parseLine P a st l = Inr st"
  by (simp add: parseLine_def)

lemma parseLine_variable:
  "\<not> isComment l \<Longrightarrow> \<not> EMPTY_LINE l \<Longrightarrow> VARIABLE_DEFINITION l = Some (n, v)
   \<Longrightarrow> parseLine P a st l =
       (case decodeURIComponent v of
          Inl e \<Rightarrow> Inl e
        | Inr d \<Rightarrow> Inr (storeVariable (fst st) n d, snd st))"
  by (simp add: parseLine_def isVariableAssignment_def)

lemma parseLine_data:
  "\<not> isComment l \<Longrightarrow> \<not> EMPTY_LINE l \<Longrightarrow> VARIABLE_DEFINITION l = None
   \<Longrightarrow> isDataField P l
   \<Longrightarrow> parseLine P a st l =
       (case createDataField l of
          Inl e \<Rightarrow> Inl e
        | Inr f \<Rightarrow> Inr (fst st, snd st @ [f]))"
  by (simp add: parseLine_def isVariableAssignment_def)

lemma parseLine_invalid:
  "\<not> isComment l \<Longrightarrow> \<not> EMPTY_LINE l \<Longrightarrow> VARIABLE_DEFINITION l = None
   \<Longrightarrow> \<not> isDataField P l
   \<Longrightarrow> parseLine P a st l = (if a = js ''throw'' then Inl (InvalidLine l) else Inr st)"
  by (simp add: parseLine_def isVariableAssignment_def)

lemma isDataField_items:
  "map trim (split_str 44 (fst (stripComment l))) = items
   \<Longrightarrow> isDataField P l =
       (case isValidAccountType (item items 2) of
          Inl e \<Rightarrow> False
        | Inr a \<Rightarrow> P (item items 0) \<and> a)"
  by (auto simp: isDataField_def Let_def split: prod.splits sum.splits)

section \<open>The line separators\<close>





lemma valid_DIRECT: "isValidAccountType (Some (js ''DIRECT'')) = Inr True"
  by (simp add: char_defs string_defs line_defs)






lemma valid_RESELLER: "isValidAccountType (Some (js ''RESELLER'')) = Inr True"
  by (simp add: char_defs string_defs line_defs)






lemma filter_not_throw: "js ''filter'' \<noteq> js ''throw''"
  by (simp add: js_def)

lemma parseAdsTxt_default:
  "parseAdsTxt P text None =
     (case forEach (parseLine P (js ''filter'')) ([], []) (split_NEW_LINE text) of
        Inl e \<Rightarrow> Inl e
      | Inr st \<Rightarrow> Inr \<lparr> variables = Some (fst st), dataFields = Some (snd st) \<rparr>)"
  by (simp add: parseAdsTxt_def)

















section \<open>Mapping with errors\<close>

lemma map_err_append:
  "map_err f (xs @ ys) =
     (case map_err f xs of
        Inl e \<Rightarrow> Inl e
      | Inr a \<Rightarrow> (case map_err f ys of Inl e \<Rightarrow> Inl e | Inr b \<Rightarrow> Inr (a @ b)))"
  by (induction xs) (auto split: sum.splits)


lemma map_err_Inl_D:
  "map_err f xs = Inl e \<Longrightarrow> \<exists>x\<in>set xs. f x = Inl e"
  by (induction xs) (auto split: sum.splits)

lemma map_err_all_Inr:
  "(\<And>x. x \<in> set xs \<Longrightarrow> f x = Inr (g x)) \<Longrightarrow> map_err f xs = Inr (map g xs)"
  by (induction xs) auto

lemma map_err_first_error:
  "map_err f pre = Inr ys \<Longrightarrow> f x = Inl e \<Longrightarrow> map_err f (pre @ x # post) = Inl e"
  by (simp add: map_err_append)

section \<open>Generation\<close>

lemma nonEmpty_simps [simp]: "nonEmpty None = False" "nonEmpty (Some s) = (s \<noteq> [])"
  by (simp_all add: nonEmpty_def)

lemma generateAdsTxt_first_error:
  assumes "dataFields m = Some (pre @ f # post)"
    and "map_err (generateLineForField P) pre = Inr ls"
    and "generateLineForField P f = Inl e"
  shows "generateAdsTxt P m h ft = Inl e"
  using assms by (simp add: generateAdsTxt_def Let_def map_err_first_error)


lemma toUpperCase_direct: "toUpperCase (js ''direct'') = js ''DIRECT''"
  by (simp add: js_def toUpperCase_def upper_unit_def)

text \<open>
  Claim C3, as amended. Generation checks the account type with the same test as parsing,
  which folds the case: for a record with an accepted domain, a publisher account ID that
  is not empty and an account type that is a string, the line is generated, with the account
  type as given, when its upper-case form is DIRECT or RESELLER (so for "direct"), and
  generation fails with the invalid-account-type error otherwise; that error is the one
  \<^verbatim>\<open>generateAdsTxt\<close> raises when the records before this one are generated.
\<close>

theorem generateAdsTxt_accountType:
  assumes "isDomainName (domain f)" and "nonEmpty (publisherAccountID f)"
    and "accountType f = Some t"
  shows "(toUpperCase t \<in> set AccountType \<longrightarrow>
            generateLineForField isDomainName f =
              Inr (template (domain f) @ js '', '' @ template (publisherAccountID f) @ js '', '' @ t
                   @ (if nonEmpty (certificateAuthorityID f)
                      then js '', '' @ template (certificateAuthorityID f) else [])
                   @ (if nonEmpty (comment f) then js '' # '' @ template (comment f) else [])))
       \<and> (toUpperCase t \<notin> set AccountType \<longrightarrow>
            generateLineForField isDomainName f = Inl (InvalidAccountType (Some t))
            \<and> (dataFields m = Some (pre @ f # post)
                 \<and> map_err (generateLineForField isDomainName) pre = Inr ls
                 \<longrightarrow> generateAdsTxt isDomainName m h ft = Inl (InvalidAccountType (Some t))))"
proof (intro conjI impI)
  assume "toUpperCase t \<in> set AccountType"
  with assms show "generateLineForField isDomainName f =
              Inr (template (domain f) @ js '', '' @ template (publisherAccountID f) @ js '', '' @ t
                   @ (if nonEmpty (certificateAuthorityID f)
                      then js '', '' @ template (certificateAuthorityID f) else [])
                   @ (if nonEmpty (comment f) then js '' # '' @ template (comment f) else []))"
    by (simp add: generateLineForField_def isValidAccountType_def template_def)
next
  assume "toUpperCase t \<notin> set AccountType"
  with assms show e: "generateLineForField isDomainName f = Inl (InvalidAccountType (Some t))"
    by (simp add: generateLineForField_def isValidAccountType_def)
  assume "dataFields m = Some (pre @ f # post)
          \<and> map_err (generateLineForField isDomainName) pre = Inr ls"
  then show "generateAdsTxt isDomainName m h ft = Inl (InvalidAccountType (Some t))"
    using e by (auto intro: generateAdsTxt_first_error)
qed

theorem generateAdsTxt_accountType_witness:
  "generateLineForField (listed [''a.com''])
     \<lparr> domain = Some (js ''a.com''), publisherAccountID = Some (js ''1''),
       accountType = Some (js ''direct''), certificateAuthorityID = None, comment = None \<rparr>
   = Inr (js ''a.com'' @ js '', '' @ js ''1'' @ js '', '' @ js ''direct'')
   \<and> generateAdsTxt (listed [''a.com''])
       \<lparr> variables = None,
         dataFields = Some [\<lparr> domain = Some (js ''a.com''), publisherAccountID = Some (js ''1''),
            accountType = Some (js ''agency''), certificateAuthorityID = None, comment = None \<rparr>] \<rparr>
       None None
     = Inl (InvalidAccountType (Some (js ''agency'')))"
proof -
  let ?f = "\<lparr> domain = Some (js ''a.com''), publisherAccountID = Some (js ''1''),
       accountType = Some (js ''direct''), certificateAuthorityID = None, comment = None \<rparr>"
  let ?g = "\<lparr> domain = Some (js ''a.com''), publisherAccountID = Some (js ''1''),
       accountType = Some (js ''agency''), certificateAuthorityID = None, comment = None \<rparr>"
  let ?m = "\<lparr> variables = None, dataFields = Some [?g] \<rparr>"
  have d: "listed [''a.com''] (Some (js ''a.com''))" by (simp add: listed_def)
  have n: "nonEmpty (Some (js ''1''))" by (simp add: nonEmpty_def js_def)
  have u: "toUpperCase (js ''direct'') \<in> set AccountType"
    by (simp add: toUpperCase_direct AccountType_def)
  have v: "toUpperCase (js ''agency'') \<notin> set AccountType"
    by (simp add: js_def toUpperCase_def upper_unit_def AccountType_def)
  have 1: "generateLineForField (listed [''a.com'']) ?f
           = Inr (js ''a.com'' @ js '', '' @ js ''1'' @ js '', '' @ js ''direct'')"
    using generateAdsTxt_accountType [where isDomainName = "listed [''a.com'']" and f = ?f
        and t = "js ''direct''"] d n u
    by (simp add: nonEmpty_def template_def)
  have 2: "generateAdsTxt (listed [''a.com'']) ?m None None = Inl (InvalidAccountType (Some (js ''agency'')))"
    using generateAdsTxt_accountType [where isDomainName = "listed [''a.com'']" and f = ?g
        and t = "js ''agency''" and m = ?m and pre = "[]" and post = "[]" and ls = "[]"
        and h = None and ft = None] d n v
    by simp
  from 1 2 show ?thesis by simp
qed

text \<open>
  The claim as stated fails: a record whose account type is "direct" is generated.
\<close>

theorem generateAdsTxt_accountType_counterexample:
  "generateAdsTxt (listed [''a.com''])
     \<lparr> variables = None,
       dataFields = Some [\<lparr> domain = Some (js ''a.com''), publisherAccountID = Some (js ''1''),
          accountType = Some (js ''direct''), certificateAuthorityID = None, comment = None \<rparr>] \<rparr>
     None None
   = Inr (js ''a.com, 1, direct'')"
  by (simp add: generateAdsTxt_def generateLineForField_def isValidAccountType_def
      toUpperCase_direct AccountType_def listed_def nonEmpty_def template_def commentLines_def)
     (simp add: js_def)





lemma generateLineForField_errors:
  "generateLineForField P f \<noteq> Inl InvalidVariableValue"
  by (auto simp: generateLineForField_def isValidAccountType_def split: option.splits)

lemma generateLineForVariable_error:
  "generateLineForVariable k v = Inl e \<Longrightarrow> v = Other"
  by (cases v) (auto simp: generateLineForVariable_def)

text \<open>
  Claim C10. A variable whose value is an empty array makes an empty line and no error:
  the invalid-variable-value error, if raised, comes from another variable, whose value is
  neither a string nor an array; and when the records and the other variables are
  generated, the output has an empty line at the place of the entry.
\<close>

theorem generateAdsTxt_empty_array:
  assumes "variables m = Some vars" and "map_of vars key = Some (Arr [])"
  shows "generateLineForVariable key (property vars key) = Inr []
       \<and> (generateAdsTxt isDomainName m h ft = Inl InvalidVariableValue
            \<longrightarrow> (\<exists>k. k \<noteq> key \<and> k \<in> set (map fst vars) \<and> property vars k = Other))
       \<and> (vars = pre @ (key, Arr []) # post
            \<and> map_err (generateLineForField isDomainName)
                  (case dataFields m of None \<Rightarrow> [] | Some l \<Rightarrow> l) = Inr fieldLines
            \<and> map_err (\<lambda>k. generateLineForVariable k (property vars k)) (map fst pre) = Inr before
            \<and> map_err (\<lambda>k. generateLineForVariable k (property vars k)) (map fst post) = Inr after
            \<longrightarrow> generateAdsTxt isDomainName m h ft =
                  Inr (join [10] (commentLines h @ fieldLines @ before @ [[]] @ after
                                  @ commentLines ft)))"
proof (intro conjI impI)
  show line: "generateLineForVariable key (property vars key) = Inr []"
    using assms(2) by (simp add: property_def generateLineForVariable_def)
  {
    assume err: "generateAdsTxt isDomainName m h ft = Inl InvalidVariableValue"
    let ?fs = "case dataFields m of None \<Rightarrow> [] | Some l \<Rightarrow> l"
    have "map_err (generateLineForField isDomainName) ?fs \<noteq> Inl InvalidVariableValue"
      using map_err_Inl_D [of "generateLineForField isDomainName" ?fs InvalidVariableValue]
      by (auto simp: generateLineForField_errors)
    with err assms(1)
    have "map_err (\<lambda>k. generateLineForVariable k (property vars k)) (map fst vars)
          = Inl InvalidVariableValue"
      by (auto simp: generateAdsTxt_def Let_def split: sum.splits)
    then obtain k where k: "k \<in> set (map fst vars)"
      "generateLineForVariable k (property vars k) = Inl InvalidVariableValue"
      using map_err_Inl_D by blast
    from k(2) have "property vars k = Other" by (rule generateLineForVariable_error)
    moreover from this assms(2) have "k \<noteq> key" by (auto simp: property_def)
    ultimately show "\<exists>k. k \<noteq> key \<and> k \<in> set (map fst vars) \<and> property vars k = Other"
      using k(1) by blast
  }
  assume a: "vars = pre @ (key, Arr []) # post
            \<and> map_err (generateLineForField isDomainName)
                  (case dataFields m of None \<Rightarrow> [] | Some l \<Rightarrow> l) = Inr fieldLines
            \<and> map_err (\<lambda>k. generateLineForVariable k (property vars k)) (map fst pre) = Inr before
            \<and> map_err (\<lambda>k. generateLineForVariable k (property vars k)) (map fst post) = Inr after"
  let ?vl = "\<lambda>k. generateLineForVariable k (property vars k)"
  from a have b: "map_err ?vl (map fst pre) = Inr before"
    and c: "map_err ?vl (map fst post) = Inr after"
    by blast+
  from a have "map fst vars = map fst pre @ key # map fst post" by simp
  then have "map_err ?vl (map fst vars) = map_err ?vl (map fst pre @ key # map fst post)"
    by (rule arg_cong)
  also have "\<dots> = Inr (before @ [] # after)"
    using b c line by (simp add: map_err_append)
  finally have "map_err ?vl (map fst vars) = Inr (before @ [] # after)" .
  with a assms(1) show "generateAdsTxt isDomainName m h ft =
                  Inr (join [10] (commentLines h @ fieldLines @ before @ [[]] @ after
                                  @ commentLines ft))"
    by (simp add: generateAdsTxt_def Let_def)
qed

theorem generateAdsTxt_empty_array_witness:
  "generateAdsTxt (listed [])
     \<lparr> variables = Some [(js ''CONTACT'', Str (js ''Jane'')), (js ''SUBDOMAIN'', Arr [])],
       dataFields = None \<rparr>
     None (Some (js ''end''))
   = Inr (js ''CONTACT=Jane'' @ [10] @ [10] @ js ''# end'')"
proof -
  let ?vars = "[(js ''CONTACT'', Str (js ''Jane'')), (js ''SUBDOMAIN'', Arr [])]"
  let ?m = "\<lparr> variables = Some ?vars, dataFields = None \<rparr>"
  have k: "js ''CONTACT'' \<noteq> js ''SUBDOMAIN''" by (simp add: js_def)
  then have l: "map_of ?vars (js ''SUBDOMAIN'') = Some (Arr [])" by simp
  have c: "generateLineForVariable (js ''CONTACT'') (property ?vars (js ''CONTACT''))
           = Inr (js ''CONTACT'' @ [61] @ js ''Jane'')"
    by (simp add: property_def generateLineForVariable_def)
  have f: "commentLines (Some (js ''end'')) = [js ''# end'']" "commentLines None = []"
    by (simp_all add: commentLines_def nonEmpty_def template_def js_def)
  have "generateAdsTxt (listed []) ?m None (Some (js ''end'')) =
          Inr (join [10] (commentLines None @ [] @ [js ''CONTACT'' @ [61] @ js ''Jane''] @ [[]] @ []
                          @ commentLines (Some (js ''end''))))"
    using generateAdsTxt_empty_array [where m = ?m and vars = ?vars and key = "js ''SUBDOMAIN''"
        and isDomainName = "listed []" and h = None and ft = "Some (js ''end'')"
        and pre = "[(js ''CONTACT'', Str (js ''Jane''))]" and post = "[]" and fieldLines = "[]"
        and before = "[js ''CONTACT'' @ [61] @ js ''Jane'']" and after = "[]"] l c
    by simp
  then show ?thesis by (simp add: f) (simp add: js_def)
qed

section \<open>Percent-decoding\<close>

lemma decodeURIComponent_plain:
  "37 \<notin> set s \<Longrightarrow> decodeURIComponent s = Inr s"
  by (induction s) (auto simp: prepend_def)

lemma map_err_length:
  "map_err f xs = Inr ys \<Longrightarrow> length ys = length xs"
  by (induction xs arbitrary: ys) (auto split: sum.splits)

lemma map_err_nth:
  "map_err f xs = Inr ys \<Longrightarrow> i < length xs \<Longrightarrow> f (xs ! i) = Inr (ys ! i)"
proof (induction xs arbitrary: ys i)
  case Nil
  then show ?case by simp
next
  case (Cons x xs)
  then show ?case by (cases i) (auto split: sum.splits)
qed

lemma map_err_item:
  "map_err f xs = Inr ys \<Longrightarrow> item xs i = Some x \<Longrightarrow> f x = Inr y \<Longrightarrow> item ys i = Some y"
  using map_err_length [of f xs ys] map_err_nth [of f xs ys i]
  by (auto simp: item_def split: if_splits)

lemma parseAdsTxt_filter:
  "parseAdsTxt P text (Some (js ''filter'')) =
     (case forEach (parseLine P (js ''filter'')) ([], []) (split_NEW_LINE text) of
        Inl e \<Rightarrow> Inl e
      | Inr st \<Rightarrow> Inr \<lparr> variables = Some (fst st), dataFields = Some (snd st) \<rparr>)"
  by (simp add: parseAdsTxt_def)

section \<open>Malformed escapes\<close>

lemma contact_line:
  "split_NEW_LINE (js ''CONTACT=100%'') = [js ''CONTACT=100%'']"
  "\<not> isComment (js ''CONTACT=100%'')"
  "\<not> EMPTY_LINE (js ''CONTACT=100%'')"
  "VARIABLE_DEFINITION (js ''CONTACT=100%'') = Some (js ''CONTACT'', js ''100%'')"
  "decodeURIComponent (js ''100%'') = Inl URIError"
  by (simp_all add: char_defs string_defs line_defs)

lemma malformed_record_line:
  "split_NEW_LINE (js ''example.com, 100%, DIRECT'') = [js ''example.com, 100%, DIRECT'']"
  "\<not> isComment (js ''example.com, 100%, DIRECT'')"
  "\<not> EMPTY_LINE (js ''example.com, 100%, DIRECT'')"
  "VARIABLE_DEFINITION (js ''example.com, 100%, DIRECT'') = None"
  "map trim (split_str 44 (fst (stripComment (js ''example.com, 100%, DIRECT''))))
   = [js ''example.com'', js ''100%'', js ''DIRECT'']"
  "createDataField (js ''example.com, 100%, DIRECT'') = Inl URIError"
  by (simp_all add: char_defs string_defs line_defs)

text \<open>
  Claim C1. With \<^verbatim>\<open>invalidLineAction: "filter"\<close> the parser raises \<^verbatim>\<open>URIError\<close> on a
  variable line whose value has a malformed escape, whatever the domain predicate, and on
  a record line with a malformed escape in a field: the two calls of
  \<^verbatim>\<open>decodeURIComponent\<close> are outside every \<^verbatim>\<open>try\<close>.
\<close>

theorem parseAdsTxt_filter_URIError:
  "parseAdsTxt isDomainName (js ''CONTACT=100%'') (Some (js ''filter'')) = Inl URIError
   \<and> parseAdsTxt (listed [''example.com'']) (js ''example.com, 100%, DIRECT'')
         (Some (js ''filter'')) = Inl URIError"
proof
  show "parseAdsTxt isDomainName (js ''CONTACT=100%'') (Some (js ''filter'')) = Inl URIError"
    by (simp add: parseAdsTxt_filter contact_line parseLine_variable [OF contact_line(2,3,4)])
next
  have "isDataField (listed [''example.com'']) (js ''example.com, 100%, DIRECT'')"
    by (simp add: isDataField_items [OF malformed_record_line(5)] item_def valid_DIRECT listed_def)
  then show "parseAdsTxt (listed [''example.com'']) (js ''example.com, 100%, DIRECT'')
         (Some (js ''filter'')) = Inl URIError"
    by (simp add: parseAdsTxt_filter malformed_record_line(1) parseLine_data [OF malformed_record_line(2,3,4)]
        malformed_record_line(6))
qed


section \<open>The account type of a parsed record\<close>

lemma toUpperCase_valid:
  assumes "toUpperCase t \<in> set AccountType"
  shows "37 \<notin> set t" and "t \<noteq> []"
proof -
  have "upper_unit 37 = 37" by (simp add: upper_unit_def)
  then have "37 \<in> set t \<Longrightarrow> 37 \<in> set (toUpperCase t)"
    by (force simp: toUpperCase_def)
  with assms show "37 \<notin> set t" by (auto simp: AccountType_def js_def)
  from assms show "t \<noteq> []" by (auto simp: AccountType_def js_def toUpperCase_def)
qed

lemma isValidAccountType_True:
  "isValidAccountType v = Inr True \<longleftrightarrow> (\<exists>t. v = Some t \<and> toUpperCase t \<in> set AccountType)"
  by (cases v) (auto simp: isValidAccountType_def)

lemma createDataField_Inr:
  assumes "createDataField line = Inr r"
  obtains decoded where
    "map_err decodeURIComponent (map trim (split_str 44 (fst (stripComment line)))) = Inr decoded"
    and "r = \<lparr> domain = item decoded 0, publisherAccountID = item decoded 1,
               accountType = item decoded 2, certificateAuthorityID = item decoded 3,
               comment = (if snd (stripComment line) \<noteq> [] then Some (snd (stripComment line))
                          else None) \<rparr>"
  using assms by (auto simp: createDataField_def split: prod.splits sum.splits)

lemma spellings_of_DIRECT:
  assumes "t = js ''direct'' \<or> t = js ''Direct'' \<or> t = js ''DIRECT''"
  shows "toUpperCase t \<in> set AccountType"
  using assms by (auto simp: AccountType_def js_def toUpperCase_def upper_unit_def)

text \<open>
  Claim C2, as amended. The account type is compared without regard to case, and the
  record keeps it as written: for every line whose first field is an accepted domain and
  whose third field is "direct", "Direct" or "DIRECT", the line is classified as a data
  field, and the record made from it (when every field of the line decodes) has that third
  field, unchanged, as its account type; when the line is no comment, not blank and no
  variable assignment, the parser appends this record to the fields.
\<close>

theorem createDataField_accountType:
  assumes "map trim (split_str 44 (fst (stripComment line))) = items"
    and "isDomainName (item items 0)"
    and "item items 2 = Some t"
    and "t = js ''direct'' \<or> t = js ''Direct'' \<or> t = js ''DIRECT''"
  shows "isDataField isDomainName line
       \<and> (createDataField line = Inr r \<longrightarrow> accountType r = Some t)
       \<and> (\<not> isComment line \<and> \<not> EMPTY_LINE line \<and> \<not> isVariableAssignment line
            \<and> createDataField line = Inr r
            \<longrightarrow> parseLine isDomainName action st line = Inr (fst st, snd st @ [r]))"
proof -
  have v: "toUpperCase t \<in> set AccountType"
    using assms(4) by (rule spellings_of_DIRECT)
  then have "isValidAccountType (item items 2) = Inr True"
    using assms(3) by (simp add: isValidAccountType_def)
  then have field: "isDataField isDomainName line"
    using assms(2) by (simp add: isDataField_items [OF assms(1)])
  have "decodeURIComponent t = Inr t"
    using toUpperCase_valid(1) [OF v] by (rule decodeURIComponent_plain)
  then have "createDataField line = Inr r \<Longrightarrow> accountType r = Some t"
    using assms(1,3) by (auto elim!: createDataField_Inr dest: map_err_item)
  moreover have "\<not> isComment line \<and> \<not> EMPTY_LINE line \<and> \<not> isVariableAssignment line
            \<and> createDataField line = Inr r
            \<Longrightarrow> parseLine isDomainName action st line = Inr (fst st, snd st @ [r])"
    using field by (simp add: parseLine_def)
  ultimately show ?thesis using field by blast
qed

lemma Direct_line:
  "\<not> isComment (js ''a.com, 1, Direct # x'')"
  "\<not> EMPTY_LINE (js ''a.com, 1, Direct # x'')"
  "\<not> isVariableAssignment (js ''a.com, 1, Direct # x'')"
  "map trim (split_str 44 (fst (stripComment (js ''a.com, 1, Direct # x''))))
   = [js ''a.com'', js ''1'', js ''Direct'']"
  "createDataField (js ''a.com, 1, Direct # x'') =
     Inr \<lparr> domain = Some (js ''a.com''), publisherAccountID = Some (js ''1''),
           accountType = Some (js ''Direct''), certificateAuthorityID = None,
           comment = Some (js ''x'') \<rparr>"
  by (simp_all add: char_defs string_defs line_defs isVariableAssignment_def)

theorem createDataField_accountType_witness:
  "parseLine (listed [''a.com'']) (js ''filter'') ([], []) (js ''a.com, 1, Direct # x'') =
     Inr ([], [\<lparr> domain = Some (js ''a.com''), publisherAccountID = Some (js ''1''),
                  accountType = Some (js ''Direct''), certificateAuthorityID = None,
                  comment = Some (js ''x'') \<rparr>])"
  using createDataField_accountType [where line = "js ''a.com, 1, Direct # x''"
      and items = "[js ''a.com'', js ''1'', js ''Direct'']" and t = "js ''Direct''"
      and isDomainName = "listed [''a.com'']" and action = "js ''filter''" and st = "([], [])"
      and r = "\<lparr> domain = Some (js ''a.com''), publisherAccountID = Some (js ''1''),
                  accountType = Some (js ''Direct''), certificateAuthorityID = None,
                  comment = Some (js ''x'') \<rparr>"]
    Direct_line
  by (simp add: item_def listed_def)

lemma direct_line:
  "split_NEW_LINE (js ''a.com, 1, direct'') = [js ''a.com, 1, direct'']"
  "\<not> isComment (js ''a.com, 1, direct'')"
  "\<not> EMPTY_LINE (js ''a.com, 1, direct'')"
  "VARIABLE_DEFINITION (js ''a.com, 1, direct'') = None"
  "map trim (split_str 44 (fst (stripComment (js ''a.com, 1, direct''))))
   = [js ''a.com'', js ''1'', js ''direct'']"
  "createDataField (js ''a.com, 1, direct'') =
     Inr \<lparr> domain = Some (js ''a.com''), publisherAccountID = Some (js ''1''),
           accountType = Some (js ''direct''), certificateAuthorityID = None,
           comment = None \<rparr>"
  "isValidAccountType (Some (js ''direct'')) = Inr True"
  by (simp_all add: char_defs string_defs line_defs)

text \<open>
  The claim as stated fails: the record parsed from a line with "direct" has the account
  type "direct", not "DIRECT".
\<close>

theorem createDataField_accountType_counterexample:
  "parseAdsTxt (listed [''a.com'']) (js ''a.com, 1, direct'') None =
     Inr \<lparr> variables = Some [],
           dataFields = Some
             [\<lparr> domain = Some (js ''a.com''), publisherAccountID = Some (js ''1''),
                accountType = Some (js ''direct''), certificateAuthorityID = None,
                comment = None \<rparr>] \<rparr>
   \<and> js ''direct'' \<noteq> js ''DIRECT''"
proof
  have "isDataField (listed [''a.com'']) (js ''a.com, 1, direct'')"
    by (simp add: isDataField_items [OF direct_line(5)] item_def direct_line(7) listed_def)
  then show "parseAdsTxt (listed [''a.com'']) (js ''a.com, 1, direct'') None =
     Inr \<lparr> variables = Some [],
           dataFields = Some
             [\<lparr> domain = Some (js ''a.com''), publisherAccountID = Some (js ''1''),
                accountType = Some (js ''direct''), certificateAuthorityID = None,
                comment = None \<rparr>] \<rparr>"
    by (simp add: parseAdsTxt_default direct_line(1) parseLine_data [OF direct_line(2,3,4)]
        direct_line(6))
next
  show "js ''direct'' \<noteq> js ''DIRECT''" by (simp add: js_def)
qed

section \<open>More than four pieces\<close>

lemma five_pieces:
  "split_NEW_LINE (js ''a.com,1,DIRECT,x,%'') = [js ''a.com,1,DIRECT,x,%'']"
  "\<not> isComment (js ''a.com,1,DIRECT,x,%'')"
  "\<not> EMPTY_LINE (js ''a.com,1,DIRECT,x,%'')"
  "VARIABLE_DEFINITION (js ''a.com,1,DIRECT,x,%'') = None"
  "map trim (split_str 44 (fst (stripComment (js ''a.com,1,DIRECT,x,%''))))
   = [js ''a.com'', js ''1'', js ''DIRECT'', js ''x'', js ''%'']"
  "createDataField (js ''a.com,1,DIRECT,x,%'') = Inl URIError"
  by (simp_all add: char_defs string_defs line_defs)

text \<open>
  Claim C9. A line of five pieces whose first is an accepted domain and whose third is a
  valid account type is classified as a data field, but its fifth piece, which no property
  of the record would hold, is decoded with the others: its malformed escape raises
  \<^verbatim>\<open>URIError\<close>, also when invalid lines are filtered.
\<close>

theorem createDataField_five_pieces:
  "isDataField (listed [''a.com'']) (js ''a.com,1,DIRECT,x,%'')
   \<and> createDataField (js ''a.com,1,DIRECT,x,%'') = Inl URIError
   \<and> parseAdsTxt (listed [''a.com'']) (js ''a.com,1,DIRECT,x,%'') (Some (js ''filter''))
       = Inl URIError"
proof -
  have d: "isDataField (listed [''a.com'']) (js ''a.com,1,DIRECT,x,%'')"
    by (simp add: isDataField_items [OF five_pieces(5)] item_def valid_DIRECT listed_def)
  then have "parseAdsTxt (listed [''a.com'']) (js ''a.com,1,DIRECT,x,%'') (Some (js ''filter''))
       = Inl URIError"
    by (simp add: parseAdsTxt_filter five_pieces(1) parseLine_data [OF five_pieces(2,3,4)]
        five_pieces(6))
  with d five_pieces(6) show ?thesis by simp
qed

section \<open>Accumulating variables\<close>

lemma VARIABLE_DEFINITION_Some:
  assumes "VARIABLE_DEFINITION l = Some (n, v)"
  shows "\<not> isComment l" and "\<not> EMPTY_LINE l"
proof -
  from assms have "takeWhile isLetter l \<noteq> []"
    by (auto simp: VARIABLE_DEFINITION_def split: list.splits if_splits)
  then obtain c t where l: "l = c # t" and c: "isLetter c"
    by (cases l) (auto split: if_splits)
  from c have "\<not> isWhiteSpace c" and "c \<noteq> 35"
    by (auto simp: isLetter_def isWhiteSpace_def)
  with l show "\<not> isComment l" and "\<not> EMPTY_LINE l"
    by (simp_all add: isComment_def EMPTY_LINE_def)
qed



lemma assignedValues_Nil [simp]: "assignedValues name [] = []"
  by (simp add: assignedValues_def List.map_filter_simps)








lemma parseAdsTxt_Inr:
  assumes "parseAdsTxt P text opt = Inr m"
  obtains a st where "forEach (parseLine P a) ([], []) (split_NEW_LINE text) = Inr st"
    and "m = \<lparr> variables = Some (fst st), dataFields = Some (snd st) \<rparr>"
  using assms by (auto simp: parseAdsTxt_def Let_def split: if_splits sum.splits)






section \<open>What holds of a parsed manifest\<close>

lemma prepend_nonempty: "prepend p r = Inr d \<Longrightarrow> p \<noteq> [] \<Longrightarrow> d \<noteq> []"
  by (auto simp: prepend_def split: sum.splits)

lemma decodeURIComponent_nonempty:
  assumes "decodeURIComponent s = Inr d" and "s \<noteq> []"
  shows "d \<noteq> []"
proof -
  from assms(2) obtain c t where s: "s = c # t" by (cases s) auto
  have "\<exists>p r. p \<noteq> [] \<and> prepend p r = Inr d"
  proof (cases "c = 37")
    case False
    with assms(1) s show ?thesis by auto
  next
    case True
    with assms(1) s show ?thesis
      by (simp split: list.splits option.splits if_splits add: Let_def UTF16EncodeCodePoint_def)
         blast+
  qed
  then show ?thesis using prepend_nonempty by blast
qed


lemma set_update_subset: "set (AList.update k v al) \<subseteq> insert (k, v) (set al)"
  by (induction al) auto

lemma storeVariable_values:
  assumes "(k, v) \<in> set (storeVariable vars n d)"
    and "\<And>k v. (k, v) \<in> set vars \<Longrightarrow> Q v"
    and "\<And>x. Q (Str x)" and "\<And>x y. Q (Arr [x, y])"
    and "\<And>xs y. Q (Arr xs) \<Longrightarrow> Q (Arr (xs @ [y]))"
  shows "Q v"
proof (cases "map_of vars n")
  case None
  with assms(1) have "(k, v) \<in> insert (n, Str d) (set vars)"
    using set_update_subset [of n "Str d" vars] by (auto simp: storeVariable_def)
  with assms(2,3) show ?thesis by auto
next
  case (Some old)
  then have old: "(n, old) \<in> set vars" by (rule map_of_SomeD)
  show ?thesis
  proof (cases old)
    case (Str x)
    with Some assms(1) have "(k, v) \<in> insert (n, Arr [x, d]) (set vars)"
      using set_update_subset [of n "Arr [x, d]" vars] by (auto simp: storeVariable_def)
    with assms(2,4) show ?thesis by auto
  next
    case (Arr xs)
    with Some assms(1) have "(k, v) \<in> insert (n, Arr (xs @ [d])) (set vars)"
      using set_update_subset [of n "Arr (xs @ [d])" vars] by (auto simp: storeVariable_def)
    moreover from old Arr have "Q (Arr (xs @ [d]))" using assms(2,5) by blast
    ultimately show ?thesis using assms(2) by auto
  next
    case Other
    with Some assms(1) have "(k, v) \<in> insert (n, Str d) (set vars)"
      using set_update_subset [of n "Str d" vars] by (auto simp: storeVariable_def)
    with assms(2,3) show ?thesis by auto
  qed
qed

lemma parseLine_cases:
  assumes "parseLine P a st l = Inr st'"
  shows "st' = st
       \<or> (\<exists>n d. st' = (storeVariable (fst st) n d, snd st))
       \<or> (\<exists>r. isDataField P l \<and> createDataField l = Inr r \<and> st' = (fst st, snd st @ [r]))"
  using assms
  by (auto simp: parseLine_def split: if_splits option.splits sum.splits prod.splits)

lemma forEach_invariant:
  assumes "forEach f st xs = Inr st'" and "I st"
    and "\<And>s x s'. x \<in> set xs \<Longrightarrow> I s \<Longrightarrow> f s x = Inr s' \<Longrightarrow> I s'"
  shows "I st'"
  using assms
proof (induction xs arbitrary: st)
  case Nil
  then show ?case by simp
next
  case (Cons x xs)
  from Cons.prems(1) obtain s1 where 1: "f st x = Inr s1" and 2: "forEach f s1 xs = Inr st'"
    by (auto split: sum.splits)
  have "I s1" using Cons.prems(2,3) 1 by auto
  with 2 show ?case using Cons.IH Cons.prems(3) by auto
qed

lemma item_nth: "i < length xs \<Longrightarrow> item xs i = Some (xs ! i)"
  by (simp add: item_def)

lemma data_field_record:
  assumes "isDataField P l" and "createDataField l = Inr r" and "\<not> P (Some [])"
  shows "(\<exists>d. domain r = Some d \<and> d \<noteq> [])
       \<and> (\<exists>p. publisherAccountID r = Some p)
       \<and> (\<exists>t. accountType r = Some t \<and> t \<noteq> [] \<and> toUpperCase t \<in> set AccountType)
       \<and> comment r \<noteq> Some []"
proof -
  define items where "items = map trim (split_str 44 (fst (stripComment l)))"
  from assms(1) have "isValidAccountType (item items 2) = Inr True" and d: "P (item items 0)"
    by (auto simp: isDataField_items [OF items_def [symmetric]] split: sum.splits)
  then obtain t where t: "item items 2 = Some t" and v: "toUpperCase t \<in> set AccountType"
    by (auto simp: isValidAccountType_True)
  from t have len: "2 < length items" by (simp add: item_def split: if_splits)
  from assms(2) obtain decoded where m: "map_err decodeURIComponent items = Inr decoded"
    and r: "r = \<lparr> domain = item decoded 0, publisherAccountID = item decoded 1,
               accountType = item decoded 2, certificateAuthorityID = item decoded 3,
               comment = (if snd (stripComment l) \<noteq> [] then Some (snd (stripComment l))
                          else None) \<rparr>"
    unfolding items_def by (rule createDataField_Inr)
  from m have len': "length decoded = length items" by (rule map_err_length)
  have 0: "decodeURIComponent (items ! 0) = Inr (decoded ! 0)"
    using map_err_nth [OF m, of 0] len by (cases items) auto
  from len have "item items 0 = Some (items ! 0)" by (intro item_nth) auto
  with d assms(3) have "items ! 0 \<noteq> []" by auto
  with 0 have "decoded ! 0 \<noteq> []" by (rule decodeURIComponent_nonempty)
  moreover from len len' have "item decoded 0 = Some (decoded ! 0)" by (intro item_nth) auto
  ultimately have "\<exists>d. domain r = Some d \<and> d \<noteq> []"
    using r by simp
  moreover from len len' have "item decoded 1 = Some (decoded ! 1)" by (intro item_nth) auto
  then have "\<exists>p. publisherAccountID r = Some p"
    using r by simp
  moreover have "decodeURIComponent t = Inr t"
    using toUpperCase_valid(1) [OF v] by (rule decodeURIComponent_plain)
  then have "item decoded 2 = Some t" using m t by (rule map_err_item [rotated 2])
  then have "\<exists>t. accountType r = Some t \<and> t \<noteq> [] \<and> toUpperCase t \<in> set AccountType"
    using r v toUpperCase_valid(2) [OF v] by simp
  moreover have "comment r \<noteq> Some []" using r by simp
  ultimately show ?thesis by blast
qed

text \<open>
  Claim C4, as amended. When \<^verbatim>\<open>parseAdsTxt\<close> returns (and \<^verbatim>\<open>isDomainName\<close> rejects
  the empty string), every record of the fields has a domain that is not empty, a publisher
  account ID (which may be the empty string), an account type that is not empty and is
  DIRECT or RESELLER when upper-cased, and a comment that, when present, is not empty;
  every variable is a string or an array of at least two strings.
\<close>

theorem parseAdsTxt_invariants:
  assumes "parseAdsTxt isDomainName text parseOptions = Inr m"
    and "\<not> isDomainName (Some [])"
  shows "\<exists>vars fs.
           variables m = Some vars \<and> dataFields m = Some fs
         \<and> (\<forall>r \<in> set fs.
                (\<exists>d. domain r = Some d \<and> d \<noteq> [])
              \<and> (\<exists>p. publisherAccountID r = Some p)
              \<and> (\<exists>t. accountType r = Some t \<and> t \<noteq> [] \<and> toUpperCase t \<in> set AccountType)
              \<and> comment r \<noteq> Some [])
         \<and> (\<forall>(k, v) \<in> set vars.
                (\<exists>s. v = Str s) \<or> (\<exists>ss. v = Arr ss \<and> 2 \<le> length ss))"
proof -
  let ?F = "\<lambda>r. (\<exists>d. domain r = Some d \<and> d \<noteq> [])
              \<and> (\<exists>p. publisherAccountID r = Some p)
              \<and> (\<exists>t. accountType r = Some t \<and> t \<noteq> [] \<and> toUpperCase t \<in> set AccountType)
              \<and> comment r \<noteq> Some []"
  let ?V = "\<lambda>v. (\<exists>s. v = Str s) \<or> (\<exists>ss. v = Arr ss \<and> 2 \<le> length ss)"
  let ?I = "\<lambda>st. (\<forall>r \<in> set (snd st). ?F r) \<and> (\<forall>(k, v) \<in> set (fst st). ?V v)"
  from assms(1) obtain a st
    where f: "forEach (parseLine isDomainName a) ([], []) (split_NEW_LINE text) = Inr st"
      and m: "m = \<lparr> variables = Some (fst st), dataFields = Some (snd st) \<rparr>"
    by (rule parseAdsTxt_Inr)
  have "?I st"
  proof (rule forEach_invariant [OF f, where I = ?I])
    show "?I ([], [])" by simp
  next
    fix s l s'
    assume I: "?I s" and step: "parseLine isDomainName a s l = Inr s'"
    from parseLine_cases [OF step] show "?I s'"
    proof (elim disjE exE conjE)
      assume "s' = s"
      with I show ?thesis by simp
    next
      fix n d
      assume s': "s' = (storeVariable (fst s) n d, snd s)"
      have "?V v" if "(k, v) \<in> set (storeVariable (fst s) n d)" for k v
        using that
      proof (rule storeVariable_values)
        show "?V v" if "(k, v) \<in> set (fst s)" for k v using I that by auto
        show "?V (Str x)" for x by simp
        show "?V (Arr [x, y])" for x y by simp
        show "?V (Arr (xs @ [y]))" if "?V (Arr xs)" for xs y using that by simp
      qed
      with I s' show ?thesis by auto
    next
      fix r
      assume "isDataField isDomainName l" and "createDataField l = Inr r"
        and s': "s' = (fst s, snd s @ [r])"
      then have "?F r" using assms(2) by (intro data_field_record)
      with I s' show ?thesis by auto
    qed
  qed
  with m show ?thesis by (intro exI [of _ "fst st"] exI [of _ "snd st"]) simp
qed


lemma empty_publisher_line:
  "split_NEW_LINE (js ''a.com,,direct'') = [js ''a.com,,direct'']"
  "\<not> isComment (js ''a.com,,direct'')"
  "\<not> EMPTY_LINE (js ''a.com,,direct'')"
  "VARIABLE_DEFINITION (js ''a.com,,direct'') = None"
  "map trim (split_str 44 (fst (stripComment (js ''a.com,,direct''))))
   = [js ''a.com'', [], js ''direct'']"
  "createDataField (js ''a.com,,direct'') =
     Inr \<lparr> domain = Some (js ''a.com''), publisherAccountID = Some [],
           accountType = Some (js ''direct''), certificateAuthorityID = None,
           comment = None \<rparr>"
  by (simp_all add: char_defs string_defs line_defs)

lemma empty_publisher_parsed:
  "parseAdsTxt (listed [''a.com'']) (js ''a.com,,direct'') None =
     Inr \<lparr> variables = Some [],
           dataFields = Some
             [\<lparr> domain = Some (js ''a.com''), publisherAccountID = Some [],
                accountType = Some (js ''direct''), certificateAuthorityID = None,
                comment = None \<rparr>] \<rparr>"
proof -
  have "isDataField (listed [''a.com'']) (js ''a.com,,direct'')"
    by (simp add: isDataField_items [OF empty_publisher_line(5)] item_def direct_line(7)
        listed_def)
  then show ?thesis
    by (simp add: parseAdsTxt_default empty_publisher_line(1)
        parseLine_data [OF empty_publisher_line(2,3,4)] empty_publisher_line(6))
qed

theorem parseAdsTxt_invariants_witness:
  "\<exists>m fs r.
     parseAdsTxt (listed [''a.com'']) (js ''a.com,,direct'') None = Inr m
     \<and> dataFields m = Some fs \<and> r \<in> set fs
     \<and> (\<exists>d. domain r = Some d \<and> d \<noteq> [])
     \<and> (\<exists>p. publisherAccountID r = Some p)
     \<and> (\<exists>t. accountType r = Some t \<and> t \<noteq> [] \<and> toUpperCase t \<in> set AccountType)
     \<and> comment r \<noteq> Some []"
proof -
  let ?r = "\<lparr> domain = Some (js ''a.com''), publisherAccountID = Some [],
                accountType = Some (js ''direct''), certificateAuthorityID = None,
                comment = None \<rparr>"
  let ?m = "\<lparr> variables = Some [], dataFields = Some [?r] \<rparr>"
  have n: "\<not> listed [''a.com''] (Some [])" by (simp add: listed_def js_def)
  from parseAdsTxt_invariants [OF empty_publisher_parsed n]
  obtain fs where fs: "dataFields ?m = Some fs"
    and all: "\<forall>r \<in> set fs.
                (\<exists>d. domain r = Some d \<and> d \<noteq> [])
              \<and> (\<exists>p. publisherAccountID r = Some p)
              \<and> (\<exists>t. accountType r = Some t \<and> t \<noteq> [] \<and> toUpperCase t \<in> set AccountType)
              \<and> comment r \<noteq> Some []"
    by blast
  from fs have "?r \<in> set fs" by auto
  with all fs empty_publisher_parsed show ?thesis by blast
qed

text \<open>
  The claim as stated fails: the line "a.com,,direct" is parsed into a record whose
  publisher account ID is the empty string and whose account type is "direct".
\<close>

theorem parseAdsTxt_invariants_counterexample:
  "parseAdsTxt (listed [''a.com'']) (js ''a.com,,direct'') None =
     Inr \<lparr> variables = Some [],
           dataFields = Some
             [\<lparr> domain = Some (js ''a.com''), publisherAccountID = Some [],
                accountType = Some (js ''direct''), certificateAuthorityID = None,
                comment = None \<rparr>] \<rparr>
   \<and> js ''direct'' \<notin> set AccountType"
  using empty_publisher_parsed by (simp add: AccountType_def js_def)

section \<open>Generating and parsing again\<close>

lemma trim_Nil [simp]: "trim [] = []"
  by (simp add: trim_def)

lemma trim_space: "trim (32 # s) = trim s"
  by (simp add: trim_def isWhiteSpace_def)

lemma stripComment_no_comment:
  "35 \<notin> set l \<Longrightarrow> stripComment l = (l, [])"
  by (simp add: stripComment_def split_str_no_sep)

lemma not_isComment:
  assumes "35 \<notin> set l"
  shows "\<not> isComment l"
proof (cases "dropWhile isWhiteSpace l")
  case Nil
  show ?thesis unfolding isComment_def Nil by simp
next
  case (Cons c t)
  then have "c \<in> set (dropWhile isWhiteSpace l)" by simp
  then have "c \<in> set l" by (rule set_dropWhileD)
  with assms Cons show ?thesis by (auto simp: isComment_def)
qed

lemma not_EMPTY_LINE:
  "c \<in> set l \<Longrightarrow> \<not> isWhiteSpace c \<Longrightarrow> \<not> EMPTY_LINE l"
  by (auto simp: EMPTY_LINE_def list_all_iff)

lemma not_VARIABLE_DEFINITION:
  assumes "61 \<notin> set d" and "\<not> isLetter c" and "c \<noteq> 61"
  shows "VARIABLE_DEFINITION (d @ c # rest) = None"
proof (cases "\<forall>x\<in>set d. isLetter x")
  case True
  then have "dropWhile isLetter (d @ c # rest) = c # rest"
    using assms(2) by (simp add: dropWhile_append2)
  with assms(3) show ?thesis by (simp add: VARIABLE_DEFINITION_def)
next
  case False
  then obtain x where x: "x \<in> set d" "\<not> isLetter x" by blast
  then have eq: "dropWhile isLetter (d @ c # rest) = dropWhile isLetter d @ c # rest"
    by (rule dropWhile_append1)
  from x have "dropWhile isLetter d \<noteq> []" by auto
  then obtain y ys where y: "dropWhile isLetter d = y # ys" by (cases "dropWhile isLetter d") auto
  then have "y \<in> set (dropWhile isLetter d)" by simp
  then have "y \<in> set d" by (rule set_dropWhileD)
  with assms(1) have "y \<noteq> 61" by auto
  with eq y show ?thesis by (simp add: VARIABLE_DEFINITION_def)
qed

lemma VARIABLE_DEFINITION_line:
  assumes "k \<noteq> []" and "list_all isLetter k" and "v \<noteq> []"
    and "list_all (\<lambda>u. \<not> isLineTerminator u) v"
  shows "VARIABLE_DEFINITION (k @ 61 # v) = Some (k, v)"
proof -
  have l: "\<not> isLetter 61" by (simp add: isLetter_def)
  from assms(2) have all: "\<forall>x\<in>set k. isLetter x" by (simp add: list_all_iff)
  then have "dropWhile isLetter (k @ 61 # v) = 61 # v"
    using l by (simp add: dropWhile_append2)
  moreover from all have "takeWhile isLetter (k @ 61 # v) = k"
    using l by (simp add: takeWhile_append2)
  ultimately show ?thesis using assms(1,3,4) by (simp add: VARIABLE_DEFINITION_def)
qed

lemma AccountType_cases:
  assumes "t \<in> set AccountType"
  shows "isValidAccountType (Some t) = Inr True" and "decodeURIComponent t = Inr t"
    and "10 \<notin> set t" and "13 \<notin> set t" and "44 \<notin> set t" and "35 \<notin> set t"
    and "trim t = t" and "t \<noteq> []"
proof -
  from assms have t: "t = js ''DIRECT'' \<or> t = js ''RESELLER''" by (simp add: AccountType_def)
  then show "isValidAccountType (Some t) = Inr True"
    using valid_DIRECT valid_RESELLER by auto
  from t show "decodeURIComponent t = Inr t" "10 \<notin> set t" "13 \<notin> set t" "44 \<notin> set t"
    "35 \<notin> set t" "trim t = t" "t \<noteq> []"
    by (auto simp: char_defs string_defs)
qed


lemma plainValue_D:
  assumes "plainValue s"
  shows "s \<noteq> []" and "trim s = s" and "44 \<notin> set s" and "35 \<notin> set s" and "37 \<notin> set s"
    and "10 \<notin> set s" and "13 \<notin> set s"
  using assms by (simp_all add: plainValue_def)

lemma plain_record_line:
  assumes "P (Some d)" and "plainValue d" and "61 \<notin> set d" and "plainValue p"
    and "t \<in> set AccountType" and "case ca of None \<Rightarrow> True | Some c \<Rightarrow> plainValue c"
  defines "line \<equiv> d @ 44 # 32 # p @ 44 # 32 # t @ (case ca of None \<Rightarrow> [] | Some c \<Rightarrow> 44 # 32 # c)"
  shows "parseLine P a st line =
           Inr (fst st, snd st @ [\<lparr> domain = Some d, publisherAccountID = Some p,
                  accountType = Some t, certificateAuthorityID = ca, comment = None \<rparr>])"
    and "10 \<notin> set line" and "13 \<notin> set line"
proof -
  note D = plainValue_D [OF assms(2)] and Q = plainValue_D [OF assms(4)]
    and T = AccountType_cases [OF assms(5)]
  define tail where "tail = (case ca of None \<Rightarrow> [] | Some c \<Rightarrow> 44 # 32 # c)"
  define rest where "rest = (case ca of None \<Rightarrow> [] | Some c \<Rightarrow> [c])"
  have C: "35 \<notin> set tail \<and> 10 \<notin> set tail \<and> 13 \<notin> set tail"
    using assms(6) by (auto simp: tail_def plainValue_def split: option.splits)
  have line_eq: "line = d @ 44 # ((32 # p) @ 44 # (32 # t @ tail))"
    by (simp add: line_def tail_def)
  show "10 \<notin> set line" and "13 \<notin> set line"
    using D Q T C by (auto simp: line_eq)
  have no_comment: "35 \<notin> set line"
    using D Q T C by (auto simp: line_eq)
  have s3: "map trim (split_str 44 (32 # t @ tail)) = t # rest"
  proof (cases ca)
    case None
    then show ?thesis
      using T by (simp add: tail_def rest_def split_str_no_sep trim_space)
  next
    case (Some c)
    with assms(6) have c: "plainValue c" by simp
    have "split_str 44 ((32 # t) @ 44 # (32 # c)) = (32 # t) # split_str 44 (32 # c)"
      using T by (intro split_str_append) simp
    moreover have "split_str 44 (32 # c) = [32 # c]"
      using plainValue_D(3) [OF c] by (intro split_str_no_sep) simp
    ultimately show ?thesis
      using Some T plainValue_D(2) [OF c] by (simp add: tail_def rest_def trim_space)
  qed
  have "split_str 44 ((32 # p) @ 44 # (32 # t @ tail)) = (32 # p) # split_str 44 (32 # t @ tail)"
    using Q by (intro split_str_append) simp
  moreover have "split_str 44 line = d # split_str 44 ((32 # p) @ 44 # (32 # t @ tail))"
    unfolding line_eq using D by (intro split_str_append)
  ultimately have items: "map trim (split_str 44 (fst (stripComment line))) = d # p # t # rest"
    using s3 D Q by (simp add: stripComment_no_comment [OF no_comment] trim_space)
  have field: "isDataField P line"
    using assms(1) T(1) by (simp add: isDataField_items [OF items] item_def)
  have "map_err decodeURIComponent rest = Inr rest"
    using assms(6) by (auto simp: rest_def plainValue_def decodeURIComponent_plain split: option.splits)
  then have "map_err decodeURIComponent (d # p # t # rest) = Inr (d # p # t # rest)"
    using D Q T(2) by (simp add: decodeURIComponent_plain)
  moreover have "item (d # p # t # rest) 3 = ca"
    by (simp add: item_def rest_def split: option.splits)
  ultimately have created: "createDataField line =
      Inr \<lparr> domain = Some d, publisherAccountID = Some p, accountType = Some t,
            certificateAuthorityID = ca, comment = None \<rparr>"
    using items by (simp add: createDataField_def stripComment_no_comment [OF no_comment] item_def)
  have 1: "\<not> isComment line" using no_comment by (rule not_isComment)
  have "\<not> isWhiteSpace 44" by (simp add: isWhiteSpace_def)
  then have 2: "\<not> EMPTY_LINE line" by (intro not_EMPTY_LINE [of 44]) (simp_all add: line_eq)
  have 3: "VARIABLE_DEFINITION line = None"
    unfolding line_eq using assms(3) by (intro not_VARIABLE_DEFINITION) (simp_all add: isLetter_def)
  show "parseLine P a st line =
           Inr (fst st, snd st @ [\<lparr> domain = Some d, publisherAccountID = Some p,
                  accountType = Some t, certificateAuthorityID = ca, comment = None \<rparr>])"
    by (simp add: parseLine_data [OF 1 2 3 field] created)
qed

lemma plainField_line:
  assumes "plainField P r"
  shows "\<exists>l. generateLineForField P r = Inr l
            \<and> (\<forall>a st. parseLine P a st l = Inr (fst st, snd st @ [r]))
            \<and> 10 \<notin> set l \<and> 13 \<notin> set l"
proof -
  from assms obtain d p t where f: "domain r = Some d" "publisherAccountID r = Some p"
    "accountType r = Some t" "comment r = None"
    and h: "P (Some d)" "plainValue d" "61 \<notin> set d" "plainValue p" "t \<in> set AccountType"
      "case certificateAuthorityID r of None \<Rightarrow> True | Some c \<Rightarrow> plainValue c"
    by (auto simp: plainField_def split: option.splits)
  define ca where "ca = certificateAuthorityID r"
  let ?l = "d @ 44 # 32 # p @ 44 # 32 # t @ (case ca of None \<Rightarrow> [] | Some c \<Rightarrow> 44 # 32 # c)"
  have r: "r = \<lparr> domain = Some d, publisherAccountID = Some p, accountType = Some t,
                 certificateAuthorityID = ca, comment = None \<rparr>"
    using f by (cases r) (simp add: ca_def)
  have "generateLineForField P r = Inr ?l"
    using f h AccountType_cases(1) [OF h(5)] plainValue_D(1) [OF h(4)]
    by (auto simp: generateLineForField_def template_def ca_def js_def plainValue_def
        split: option.splits)
  moreover have "\<forall>a st. parseLine P a st ?l = Inr (fst st, snd st @ [r])"
    using plain_record_line(1) [where P = P and d = d and ca = ca, OF h(1-5)] h(6)
    by (simp add: ca_def [symmetric] r [symmetric])
  moreover have "10 \<notin> set ?l \<and> 13 \<notin> set ?l"
    using plain_record_line(2,3) [where P = P and d = d and ca = ca, OF h(1-5)] h(6)
    by (simp add: ca_def [symmetric])
  ultimately show ?thesis by blast
qed


lemma update_new_key:
  "k \<notin> fst ` set al \<Longrightarrow> AList.update k v al = al @ [(k, v)]"
  by (induction al) auto

lemma storeVariable_new:
  "k \<notin> fst ` set vars \<Longrightarrow> storeVariable vars k v = vars @ [(k, Str v)]"
  by (simp add: storeVariable_def map_of_eq_None_iff [THEN iffD2] update_new_key)

lemma plainVariable_line:
  assumes "plainVariable (k, Str v)"
  shows "generateLineForVariable k (Str v) = Inr (k @ 61 # v)"
    and "parseLine P a st (k @ 61 # v) = Inr (storeVariable (fst st) k v, snd st)"
    and "10 \<notin> set (k @ 61 # v)" and "13 \<notin> set (k @ 61 # v)"
proof -
  from assms have k: "k \<noteq> []" "list_all isLetter k" and v: "v \<noteq> []"
    "list_all (\<lambda>u. \<not> isLineTerminator u) v" "37 \<notin> set v"
    by (simp_all add: plainVariable_def)
  show "generateLineForVariable k (Str v) = Inr (k @ 61 # v)"
    by (simp add: generateLineForVariable_def)
  have m: "VARIABLE_DEFINITION (k @ 61 # v) = Some (k, v)"
    using k v(1,2) by (rule VARIABLE_DEFINITION_line)
  show "parseLine P a st (k @ 61 # v) = Inr (storeVariable (fst st) k v, snd st)"
    by (simp add: parseLine_variable [OF VARIABLE_DEFINITION_Some [OF m] m]
        decodeURIComponent_plain [OF v(3)])
  from k(2) have "10 \<notin> set k \<and> 13 \<notin> set k"
    by (auto simp: list_all_iff isLetter_def)
  moreover from v(2) have "10 \<notin> set v \<and> 13 \<notin> set v"
    by (auto simp: list_all_iff isLineTerminator_def)
  ultimately show "10 \<notin> set (k @ 61 # v)" and "13 \<notin> set (k @ 61 # v)"
    by simp_all
qed

lemma forEach_append:
  "forEach f st (xs @ ys) =
     (case forEach f st xs of Inl e \<Rightarrow> Inl e | Inr st' \<Rightarrow> forEach f st' ys)"
  by (induction xs arbitrary: st) (auto split: sum.splits)

lemma plainField_lines:
  assumes "list_all (plainField P) rs"
  shows "\<exists>ls. map_err (generateLineForField P) rs = Inr ls
             \<and> (\<forall>a st. forEach (parseLine P a) st ls = Inr (fst st, snd st @ rs))
             \<and> (\<forall>l\<in>set ls. 10 \<notin> set l \<and> 13 \<notin> set l)"
  using assms
proof (induction rs)
  case Nil
  then show ?case by simp
next
  case (Cons r rs)
  from Cons.prems have "plainField P r" by simp
  from plainField_line [OF this] obtain l where l: "generateLineForField P r = Inr l"
    "\<And>a st. parseLine P a st l = Inr (fst st, snd st @ [r])"
    "10 \<notin> set l \<and> 13 \<notin> set l"
    by blast
  from Cons obtain ls where ls: "map_err (generateLineForField P) rs = Inr ls"
    "\<And>a st. forEach (parseLine P a) st ls = Inr (fst st, snd st @ rs)"
    "\<forall>l\<in>set ls. 10 \<notin> set l \<and> 13 \<notin> set l"
    by auto
  show ?case
    by (intro exI [of _ "l # ls"]) (simp add: l ls)
qed

lemma plainVariable_lines:
  assumes "list_all plainVariable vs" and "distinct (map fst vs)"
    and "fst ` set vs \<inter> fst ` set vars = {}"
    and "\<And>k v. (k, v) \<in> set vs \<Longrightarrow> property every k = v"
  shows "\<exists>ls. map_err (\<lambda>k. generateLineForVariable k (property every k)) (map fst vs) = Inr ls
             \<and> (\<forall>a fs. forEach (parseLine P a) (vars, fs) ls = Inr (vars @ vs, fs))
             \<and> (\<forall>l\<in>set ls. 10 \<notin> set l \<and> 13 \<notin> set l)"
  using assms
proof (induction vs arbitrary: vars)
  case Nil
  then show ?case by simp
next
  case (Cons kv vs)
  obtain k x where kv: "kv = (k, x)" by (cases kv)
  from Cons.prems(1) kv obtain v where x: "x = Str v" and pv: "plainVariable (k, Str v)"
    by (auto simp: plainVariable_def split: variable_value.splits)
  note L = plainVariable_line [OF pv]
  from Cons.prems(3) kv have new: "k \<notin> fst ` set vars" by auto
  have p: "property every k = Str v" using Cons.prems(4) kv x by simp
  have "\<exists>ls. map_err (\<lambda>k. generateLineForVariable k (property every k)) (map fst vs) = Inr ls
             \<and> (\<forall>a fs. forEach (parseLine P a) (vars @ [(k, Str v)], fs) ls
                         = Inr ((vars @ [(k, Str v)]) @ vs, fs))
             \<and> (\<forall>l\<in>set ls. 10 \<notin> set l \<and> 13 \<notin> set l)"
  proof (rule Cons.IH)
    show "list_all plainVariable vs" using Cons.prems(1) by simp
    show "distinct (map fst vs)" using Cons.prems(2) by simp
    show "fst ` set vs \<inter> fst ` set (vars @ [(k, Str v)]) = {}"
      using Cons.prems(2,3) kv by auto
    show "\<And>k v. (k, v) \<in> set vs \<Longrightarrow> property every k = v"
      using Cons.prems(4) by simp
  qed
  then obtain ls
    where ls: "map_err (\<lambda>k. generateLineForVariable k (property every k)) (map fst vs) = Inr ls"
      "\<And>a fs. forEach (parseLine P a) (vars @ [(k, Str v)], fs) ls
                         = Inr ((vars @ [(k, Str v)]) @ vs, fs)"
      "\<forall>l\<in>set ls. 10 \<notin> set l \<and> 13 \<notin> set l"
    by blast
  have "10 \<notin> set k \<and> 10 \<notin> set v \<and> 13 \<notin> set k \<and> 13 \<notin> set v"
    using L(3,4) by simp
  then show ?case
    by (intro exI [of _ "(k @ 61 # v) # ls"])
       (simp add: kv x p L(1,2) ls storeVariable_new [OF new])
qed

lemma EMPTY_LINE_Nil [simp]: "EMPTY_LINE []"
  by (simp add: EMPTY_LINE_def)

text \<open>
  Claim C5, as amended. The generator writes the values as they are, with no escaping. For
  every manifest whose records are well-formed, without comment and with plain values
  (no comma, number sign, percent sign, CR or LF, no white space at either end, no equals
  sign in the domain, a certificate authority ID that is absent or not empty) and whose
  variables are scalar, with distinct names made of letters and values that are not empty
  and free of percent signs and line terminators, the text generated without header and
  footer parses, under either policy, into the same records in the same order and the same
  variables.
\<close>

theorem generateAdsTxt_parseAdsTxt:
  assumes "list_all (plainField isDomainName) rs"
    and "list_all plainVariable vs" and "distinct (map fst vs)"
    and "parseOptions = None \<or> parseOptions = Some (js ''filter'')
         \<or> parseOptions = Some (js ''throw'')"
  shows "\<exists>text.
           generateAdsTxt isDomainName \<lparr> variables = Some vs, dataFields = Some rs \<rparr> None None
             = Inr text
         \<and> parseAdsTxt isDomainName text parseOptions
             = Inr \<lparr> variables = Some vs, dataFields = Some rs \<rparr>"
proof -
  from plainField_lines [OF assms(1)] obtain fl
    where fl: "map_err (generateLineForField isDomainName) rs = Inr fl"
      "\<And>a st. forEach (parseLine isDomainName a) st fl = Inr (fst st, snd st @ rs)"
      "\<forall>l\<in>set fl. 10 \<notin> set l \<and> 13 \<notin> set l"
    by blast
  have "\<And>k v. (k, v) \<in> set vs \<Longrightarrow> property vs k = v"
    using assms(3) by (simp add: property_def)
  with plainVariable_lines [OF assms(2,3), of "[]" vs isDomainName] obtain vl
    where vl: "map_err (\<lambda>k. generateLineForVariable k (property vs k)) (map fst vs) = Inr vl"
      "\<And>a fs. forEach (parseLine isDomainName a) ([], fs) vl = Inr (vs, fs)"
      "\<forall>l\<in>set vl. 10 \<notin> set l \<and> 13 \<notin> set l"
    by auto
  let ?text = "join [10] (fl @ vl)"
  have gen: "generateAdsTxt isDomainName \<lparr> variables = Some vs, dataFields = Some rs \<rparr> None None
             = Inr ?text"
    by (simp add: generateAdsTxt_def fl(1) vl(1) commentLines_def)
  have run: "forEach (parseLine isDomainName a) ([], []) (split_NEW_LINE ?text) = Inr (vs, rs)" for a
  proof (cases "fl @ vl = []")
    case True
    then have "rs = []" and "vs = []"
      using map_err_length [OF fl(1)] map_err_length [OF vl(1)] by auto
    with True show ?thesis by (simp add: parseLine_skip)
  next
    case False
    then have "split_NEW_LINE ?text = fl @ vl"
      using fl(3) vl(3) by (intro split_NEW_LINE_join) auto
    then show ?thesis by (simp add: forEach_append fl(2) vl(2))
  qed
  have "parseAdsTxt isDomainName ?text parseOptions
             = Inr \<lparr> variables = Some vs, dataFields = Some rs \<rparr>"
    using assms(4) by (auto simp: parseAdsTxt_def run)
  with gen show ?thesis by blast
qed


lemma plain_examples:
  "plainValue (js ''a.com'')" "plainValue (js ''pub-1'')" "plainValue (js ''f08c'')"
  "61 \<notin> set (js ''a.com'')" "js ''DIRECT'' \<in> set AccountType"
  "plainVariable (js ''CONTACT'', Str (js ''Jane Doe''))"
  by (simp_all add: plainValue_def plainVariable_def AccountType_def char_defs string_defs)

lemma generated_example:
  "generateAdsTxt (listed [''a.com''])
     \<lparr> variables = Some [(js ''CONTACT'', Str (js ''Jane Doe''))],
       dataFields = Some
         [\<lparr> domain = Some (js ''a.com''), publisherAccountID = Some (js ''pub-1''),
            accountType = Some (js ''DIRECT''), certificateAuthorityID = Some (js ''f08c''),
            comment = None \<rparr>] \<rparr>
     None None
   = Inr (js ''a.com, pub-1, DIRECT, f08c'' @ 10 # js ''CONTACT=Jane Doe'')"
  by (simp add: generateAdsTxt_def generateLineForField_def generateLineForVariable_def
      valid_DIRECT listed_def template_def commentLines_def property_def)
     (simp add: js_def)

theorem generateAdsTxt_parseAdsTxt_witness:
  "generateAdsTxt (listed [''a.com''])
     \<lparr> variables = Some [(js ''CONTACT'', Str (js ''Jane Doe''))],
       dataFields = Some
         [\<lparr> domain = Some (js ''a.com''), publisherAccountID = Some (js ''pub-1''),
            accountType = Some (js ''DIRECT''), certificateAuthorityID = Some (js ''f08c''),
            comment = None \<rparr>] \<rparr>
     None None
   = Inr (js ''a.com, pub-1, DIRECT, f08c'' @ 10 # js ''CONTACT=Jane Doe'')
   \<and> parseAdsTxt (listed [''a.com''])
         (js ''a.com, pub-1, DIRECT, f08c'' @ 10 # js ''CONTACT=Jane Doe'') None
     = Inr \<lparr> variables = Some [(js ''CONTACT'', Str (js ''Jane Doe''))],
             dataFields = Some
               [\<lparr> domain = Some (js ''a.com''), publisherAccountID = Some (js ''pub-1''),
                  accountType = Some (js ''DIRECT''), certificateAuthorityID = Some (js ''f08c''),
                  comment = None \<rparr>] \<rparr>"
proof -
  let ?r = "\<lparr> domain = Some (js ''a.com''), publisherAccountID = Some (js ''pub-1''),
            accountType = Some (js ''DIRECT''), certificateAuthorityID = Some (js ''f08c''),
            comment = None \<rparr>"
  let ?vs = "[(js ''CONTACT'', Str (js ''Jane Doe''))]"
  have "listed [''a.com''] (Some (js ''a.com''))" by (simp add: listed_def)
  then have 1: "list_all (plainField (listed [''a.com''])) [?r]"
    by (simp add: plainField_def plain_examples)
  have 2: "list_all plainVariable ?vs" by (simp add: plain_examples)
  have 3: "distinct (map fst ?vs)" by simp
  from generateAdsTxt_parseAdsTxt [OF 1 2 3, of None] generated_example
  show ?thesis by auto
qed

lemma comma_line:
  "split_NEW_LINE (js ''a.com, pub,1, DIRECT'') = [js ''a.com, pub,1, DIRECT'']"
  "\<not> isComment (js ''a.com, pub,1, DIRECT'')"
  "\<not> EMPTY_LINE (js ''a.com, pub,1, DIRECT'')"
  "VARIABLE_DEFINITION (js ''a.com, pub,1, DIRECT'') = None"
  "map trim (split_str 44 (fst (stripComment (js ''a.com, pub,1, DIRECT''))))
   = [js ''a.com'', js ''pub'', js ''1'', js ''DIRECT'']"
  "isValidAccountType (Some (js ''1'')) = Inr False"
  by (simp_all add: char_defs string_defs line_defs)

text \<open>
  The claim as stated fails: a publisher account ID with a comma is written as it is, and
  the line read back has the account type in the wrong place, so it is no record.
\<close>

theorem generateAdsTxt_parseAdsTxt_counterexample:
  "generateAdsTxt (listed [''a.com''])
     \<lparr> variables = Some [],
       dataFields = Some
         [\<lparr> domain = Some (js ''a.com''), publisherAccountID = Some (js ''pub,1''),
            accountType = Some (js ''DIRECT''), certificateAuthorityID = None,
            comment = None \<rparr>] \<rparr>
     None None
   = Inr (js ''a.com, pub,1, DIRECT'')
   \<and> parseAdsTxt (listed [''a.com'']) (js ''a.com, pub,1, DIRECT'') None
     = Inr \<lparr> variables = Some [], dataFields = Some [] \<rparr>"
proof
  show "generateAdsTxt (listed [''a.com''])
     \<lparr> variables = Some [],
       dataFields = Some
         [\<lparr> domain = Some (js ''a.com''), publisherAccountID = Some (js ''pub,1''),
            accountType = Some (js ''DIRECT''), certificateAuthorityID = None,
            comment = None \<rparr>] \<rparr>
     None None
   = Inr (js ''a.com, pub,1, DIRECT'')"
    by (simp add: generateAdsTxt_def generateLineForField_def valid_DIRECT listed_def
        template_def commentLines_def)
       (simp add: js_def)
next
  have "\<not> isDataField (listed [''a.com'']) (js ''a.com, pub,1, DIRECT'')"
    by (simp add: isDataField_items [OF comma_line(5)] item_def comma_line(6))
  then show "parseAdsTxt (listed [''a.com'']) (js ''a.com, pub,1, DIRECT'') None
     = Inr \<lparr> variables = Some [], dataFields = Some [] \<rparr>"
    by (simp add: parseAdsTxt_default comma_line(1) parseLine_invalid [OF comma_line(2,3,4)]
        filter_not_throw)
qed

end
